theory Spec2Isabelle
  imports Main "HOL-Library.AList"
begin

section \<open>Row records\<close>

text \<open>
  Both programs work on the objects that Papa Parse builds with \<^verbatim>\<open>header: true\<close>: one
  object per data row, keyed by column name. A row object is modelled by the list of its
  own enumerable properties in the order in which \<^verbatim>\<open>Object.keys\<close>, \<^verbatim>\<open>Object.values\<close> and
  \<^verbatim>\<open>JSON.stringify\<close> visit them. Strings are sequences of code units below 256.

  The serverless function tests cells against \<^verbatim>\<open>null\<close> and \<^verbatim>\<open>undefined\<close> before it
  converts them with \<^verbatim>\<open>String\<close>, and Papa Parse stores the fields of a data row that go
  beyond the header as an array of strings under the key \<^verbatim>\<open>__parsed_extra\<close>. So the cells
  of the serverless function are the values below. The browser code only ever stores
  strings (Papa Parse with \<^verbatim>\<open>dynamicTyping: false\<close>, and the \<^verbatim>\<open>value\<close> of a text input).
\<close>

datatype js_value = JNull | JUndefined | JString string | JArray "string list"

type_synonym 'v row = "(string \<times> 'v) list"

definition Object_keys :: "'v row \<Rightarrow> string list" where
  "Object_keys row = map fst row"

definition Object_values :: "'v row \<Rightarrow> 'v list" where
  "Object_values row = map snd row"

section \<open>Built-ins of the language used by the serverless function\<close>

text \<open>Strings joined by commas, as \<^verbatim>\<open>Array.prototype.join\<close> does by default.\<close>

fun join_commas :: "string list \<Rightarrow> string" where
  "join_commas [] = []"
| "join_commas [p] = p"
| "join_commas (p # q # ps) = p @ '','' @ join_commas (q # ps)"

text \<open>
  \<^verbatim>\<open>String(value)\<close> on the cell values. The text of an array is the text of its elements
  joined by commas.
\<close>

fun js_String :: "js_value \<Rightarrow> string" where
  "js_String JNull = ''null''"
| "js_String JUndefined = ''undefined''"
| "js_String (JString s) = s"
| "js_String (JArray xs) = join_commas xs"

text \<open>
  \<^verbatim>\<open>String.prototype.trim\<close> strips white space and line terminators from both ends.
  Below code unit 256 these are TAB, LF, VT, FF, CR, SPACE and NO-BREAK SPACE.
\<close>

definition js_whitespace :: "char \<Rightarrow> bool" where
  "js_whitespace c \<longleftrightarrow>
     c = CHR 0x09 \<or> c = CHR 0x0A \<or> c = CHR 0x0B \<or> c = CHR 0x0C \<or> c = CHR 0x0D
     \<or> c = CHR 0x20 \<or> c = CHR 0xA0"

definition js_trim :: "string \<Rightarrow> string" where
  "js_trim s = rev (dropWhile js_whitespace (rev (dropWhile js_whitespace s)))"

text \<open>
  \<^verbatim>\<open>JSON.stringify\<close> on a row object (ECMAScript: QuoteJSONString, SerializeJSONProperty,
  SerializeJSONArray and SerializeJSONObject with no indentation). Control characters are
  escaped, five of them by a short form and the others as \<^verbatim>\<open>\u00XX\<close> in lower-case
  hexadecimal; the double quote and the backslash are escaped by a backslash; an array of
  strings is written as its quoted elements between brackets; a property whose value is
  \<^verbatim>\<open>undefined\<close> is left out.
\<close>

definition backslash :: char where
  "backslash = CHR 0x5C"

definition dquote :: char where
  "dquote = CHR 0x22"

definition hex_digit :: "nat \<Rightarrow> char" where
  "hex_digit n = (if n < 10 then char_of (48 + n) else char_of (87 + n))"

definition json_escape :: "char \<Rightarrow> string" where
  "json_escape c =
     (if c = CHR 0x08 then [backslash, CHR ''b'']
      else if c = CHR 0x09 then [backslash, CHR ''t'']
      else if c = CHR 0x0A then [backslash, CHR ''n'']
      else if c = CHR 0x0C then [backslash, CHR ''f'']
      else if c = CHR 0x0D then [backslash, CHR ''r'']
      else if c = dquote then [backslash, dquote]
      else if c = backslash then [backslash, backslash]
      else if (of_char c :: nat) < 32 then
        [backslash, CHR ''u'', CHR ''0'', CHR ''0'',
         hex_digit (of_char c div 16), hex_digit (of_char c mod 16)]
      else [c])"

definition QuoteJSONString :: "string \<Rightarrow> string" where
  "QuoteJSONString s = dquote # concat (map json_escape s) @ [dquote]"

fun SerializeJSONProperty :: "js_value \<Rightarrow> string option" where
  "SerializeJSONProperty JNull = Some ''null''"
| "SerializeJSONProperty JUndefined = None"
| "SerializeJSONProperty (JString s) = Some (QuoteJSONString s)"
| "SerializeJSONProperty (JArray xs) =
     Some (''['' @ join_commas (map QuoteJSONString xs) @ '']'')"

definition json_members :: "js_value row \<Rightarrow> string list" where
  "json_members row =
     List.map_filter
       (\<lambda>(k, v). map_option (\<lambda>strP. QuoteJSONString k @ '':'' @ strP) (SerializeJSONProperty v))
       row"

definition JSON_stringify :: "js_value row \<Rightarrow> string" where
  "JSON_stringify row = ''{'' @ join_commas (json_members row) @ ''}''"

section \<open>The serverless function process-csv\<close>

subsection \<open>Cleaning and deduplication\<close>

text \<open>
  The filter of lines 49 to 51: a row stays when some value is neither \<^verbatim>\<open>null\<close> nor
  \<^verbatim>\<open>undefined\<close> and does not trim to the empty string.
\<close>

definition nonblank_value :: "js_value \<Rightarrow> bool" where
  "nonblank_value v \<longleftrightarrow> v \<noteq> JNull \<and> v \<noteq> JUndefined \<and> js_trim (js_String v) \<noteq> ''''"

definition remove_empty_rows :: "js_value row list \<Rightarrow> js_value row list" where
  "remove_empty_rows allData = filter (\<lambda>row. list_ex nonblank_value (Object_values row)) allData"

text \<open>
  The loop of lines 53 to 61, with its two accumulators: the set \<^verbatim>\<open>seen\<close> of keys and the
  array \<^verbatim>\<open>uniqueData\<close>.
\<close>

fun dedup_loop :: "js_value row list \<Rightarrow> string set \<Rightarrow> js_value row list \<Rightarrow> js_value row list" where
  "dedup_loop [] seen uniqueData = uniqueData"
| "dedup_loop (row # rows) seen uniqueData =
     (let key = JSON_stringify row
      in if key \<notin> seen then dedup_loop rows (insert key seen) (uniqueData @ [row])
         else dedup_loop rows seen uniqueData)"

definition remove_duplicates :: "js_value row list \<Rightarrow> js_value row list" where
  "remove_duplicates allData = dedup_loop allData {} []"

text \<open>
  What the function hands to the serializer once every file has been parsed: the rows of
  all files in upload order, cleaned and deduplicated.
\<close>

definition merge_rows :: "js_value row list list \<Rightarrow> js_value row list" where
  "merge_rows parsed = remove_duplicates (remove_empty_rows (concat parsed))"

subsection \<open>The handler\<close>

text \<open>
  The function reaches the outside world through formidable, \<^verbatim>\<open>fs.readFileSync\<close>,
  \<^verbatim>\<open>Papa.parse\<close> and json2csv's \<^verbatim>\<open>Parser\<close>. None of them belongs to the repository, so the
  handler takes them as parameters; \<open>None\<close> stands for a call that throws.
  \<^item> \<open>readFileSync\<close>: the text of the file at a path, read as UTF-8;
  \<^item> \<open>Papa_parse\<close>: what \<^verbatim>\<open>Papa.parse\<close> returns for a text with the options
    \<^verbatim>\<open>header: true, skipEmptyLines: true\<close>, namely the rows it made of the text (\<^verbatim>\<open>data\<close>)
    and the problems it met on the way (\<^verbatim>\<open>errors\<close>, kept here by their code). Papa Parse
    reports malformed text in \<^verbatim>\<open>errors\<close> and still returns rows;
  \<^item> \<open>Parser_parse\<close>: the text that \<^verbatim>\<open>new Parser().parse\<close> returns for an array of rows.
\<close>

record parse_results =
  parsed_data :: "js_value row list"
  parsed_errors :: "string list"

record services =
  readFileSync :: "string \<Rightarrow> string option"
  Papa_parse :: "string \<Rightarrow> parse_results option"
  Parser_parse :: "js_value row list \<Rightarrow> string option"

text \<open>
  An uploaded file as formidable describes it: the handler reads
  \<^verbatim>\<open>file.filepath || file.path\<close>, where either property may be missing.
\<close>

record upload_file =
  filepath :: "string option"
  path :: "string option"

text \<open>
  The object \<^verbatim>\<open>files\<close> that formidable passes to the callback: for each name of a form
  field that carried uploads, one file or an array of files.
\<close>

datatype files_field = SingleFile upload_file | FileArray "upload_file list"

type_synonym files_object = "(string \<times> files_field) list"

text \<open>
  The request: its HTTP method, and the \<^verbatim>\<open>files\<close> object formidable makes of it (\<open>None\<close>
  when formidable reports an error).
\<close>

record request =
  httpMethod :: string
  form_files :: "files_object option"

record response =
  statusCode :: nat
  headers :: "(string \<times> string) list"
  body :: string

definition file_location :: "upload_file \<Rightarrow> string option" where
  "file_location file =
     (case filepath file of
        None \<Rightarrow> path file
      | Some p \<Rightarrow> if p \<noteq> [] then Some p else path file)"

text \<open>
  Lines 42 to 47: every file is read and parsed in turn and its rows are appended to
  \<^verbatim>\<open>allData\<close>. Only \<^verbatim>\<open>results.data\<close> is used: \<^verbatim>\<open>results.errors\<close> is never read.
  \<^verbatim>\<open>readFileSync\<close> throws on a path that is \<^verbatim>\<open>undefined\<close>; any throw leaves the loop for
  the \<^verbatim>\<open>catch\<close> clause.
\<close>

fun read_files :: "services \<Rightarrow> upload_file list \<Rightarrow> js_value row list \<Rightarrow> js_value row list option" where
  "read_files sv [] allData = Some allData"
| "read_files sv (file # files) allData =
     (case file_location file of
        None \<Rightarrow> None
      | Some location \<Rightarrow>
          (case readFileSync sv location of
             None \<Rightarrow> None
           | Some content \<Rightarrow>
               (case Papa_parse sv content of
                  None \<Rightarrow> None
                | Some results \<Rightarrow> read_files sv files (allData @ parsed_data results))))"

definition server_error :: response where
  "server_error =
     \<lparr>statusCode = 500, headers = [], body = ''Server error processing CSV files''\<rparr>"

definition csv_response :: "string \<Rightarrow> response" where
  "csv_response csv =
     \<lparr>statusCode = 200,
      headers = [(''Content-Type'', ''text/csv''),
                 (''Content-Disposition'',
                  ''attachment; filename='' @ [dquote] @ ''combined.csv'' @ [dquote])],
      body = csv\<rparr>"

text \<open>
  Lines 33 to 36: only the entry \<^verbatim>\<open>files.files\<close> is looked at, that is the uploads of the
  form field named \<^verbatim>\<open>files\<close>.
\<close>

definition fileArray_of :: "files_object \<Rightarrow> upload_file list" where
  "fileArray_of files =
     (case map_of files ''files'' of
        None \<Rightarrow> []
      | Some (SingleFile file) \<Rightarrow> [file]
      | Some (FileArray fs) \<Rightarrow> fs)"

definition handler :: "services \<Rightarrow> request \<Rightarrow> response" where
  "handler sv event =
     (if httpMethod event \<noteq> ''POST''
      then \<lparr>statusCode = 405, headers = [], body = ''Method Not Allowed''\<rparr>
      else
        (case form_files event of
           None \<Rightarrow> \<lparr>statusCode = 500, headers = [], body = ''Error parsing form data''\<rparr>
         | Some files \<Rightarrow>
             (let fileArray = fileArray_of files
              in if fileArray = []
                 then \<lparr>statusCode = 400, headers = [], body = ''No files uploaded''\<rparr>
                 else
                   (case read_files sv fileArray [] of
                      None \<Rightarrow> server_error
                    | Some allData \<Rightarrow>
                        (let allData = remove_empty_rows allData;
                             uniqueData = remove_duplicates allData
                         in case Parser_parse sv uniqueData of
                              None \<Rightarrow> server_error
                            | Some csv \<Rightarrow> csv_response csv)))))"

section \<open>The page script\<close>

subsection \<open>The page\<close>

text \<open>
  The script keeps the parsed rows in the variable \<^verbatim>\<open>csvData\<close> and shows them in a table.
  The page is modelled by that variable and by what the script creates and reads in the
  document: the header checkboxes, the \<^verbatim>\<open>td\<close> cells of the table body in document order,
  whether the download button is shown, and a log of the alerts raised and of the files
  offered for download.

  A cell carries the attributes \<^verbatim>\<open>data-column\<close> and \<^verbatim>\<open>data-row-index\<close>, and holds either
  text or one text input. The row index is written with \<^verbatim>\<open>String\<close> and read back with
  \<^verbatim>\<open>Number\<close>, which returns the same natural number, so it is kept as a number.
\<close>

record input_element =
  input_value :: string
  input_column :: string
  input_rowIndex :: nat

datatype cell_content = TextContent string | InputChild input_element

record td =
  data_column :: string
  data_rowIndex :: nat
  td_content :: cell_content

record checkbox =
  checkbox_column :: string
  checked :: bool

text \<open>
  The text that \<^verbatim>\<open>Papa.unparse\<close> returns for an array of rows is not computed here: a
  download records the rows it was asked to serialize.
\<close>

datatype csv_text = Papa_unparse "string row list"

record download =
  filename :: string
  blob :: csv_text

record page =
  csvData :: "string row list option"
  checkboxes :: "checkbox list"
  cells :: "td list"
  downloadButton_shown :: bool
  alerts :: "string list"
  downloads :: "download list"

text \<open>The state when the script has run and nothing has been loaded: \<^verbatim>\<open>let csvData = []\<close>.\<close>

definition initial_page :: page where
  "initial_page =
     \<lparr>csvData = Some [], checkboxes = [], cells = [], downloadButton_shown = False,
      alerts = [], downloads = []\<rparr>"

text \<open>The test \<^verbatim>\<open>!csvData || !csvData.length\<close> of \<^verbatim>\<open>buildTable\<close> and of the download handler.\<close>

definition nothing_loaded :: "string row list option \<Rightarrow> bool" where
  "nothing_loaded data = (case data of None \<Rightarrow> True | Some rows \<Rightarrow> rows = [])"

subsection \<open>Reading and writing a cell of csvData\<close>

text \<open>
  \<^verbatim>\<open>csvData[rowIndex][col]\<close>: a \<^verbatim>\<open>TypeError\<close> when there is no row at the index,
  \<^verbatim>\<open>undefined\<close> when the row has no such property, and the stored string otherwise.
  Column names that every object inherits a property for, such as \<^verbatim>\<open>constructor\<close>, are
  not modelled.
\<close>

datatype cell_read = TypeError | Undefined | Defined string

definition read_cell :: "string row list option \<Rightarrow> nat \<Rightarrow> string \<Rightarrow> cell_read" where
  "read_cell data rowIndex col =
     (case data of
        None \<Rightarrow> TypeError
      | Some rows \<Rightarrow>
          if rowIndex < length rows
          then (case map_of (rows ! rowIndex) col of None \<Rightarrow> Undefined | Some s \<Rightarrow> Defined s)
          else TypeError)"

text \<open>
  The listener of lines 101 to 106, run with \<^verbatim>\<open>this\<close> the input that received the event:
  \<^verbatim>\<open>csvData[ri][column] = this.value\<close>. An existing property keeps its place among the
  keys of the row and a new one is added after them (the place of a new property whose
  name is a canonical array index is not modelled). When there is no row at the index the
  assignment throws and nothing is stored.
\<close>

definition input_listener :: "input_element \<Rightarrow> string row list option \<Rightarrow> string row list option" where
  "input_listener this data =
     (let ri = input_rowIndex this; column = input_column this
      in case data of
           None \<Rightarrow> None
         | Some rows \<Rightarrow>
             if ri < length rows
             then Some (rows[ri := AList.update column (input_value this) (rows ! ri)])
             else Some rows)"

text \<open>
  The user types into the input of the cell at position \<open>k\<close> of the table: the input
  takes the typed text as its value and the listener runs. A cell that holds text has no
  input to type into, and nothing happens.
\<close>

definition input_event :: "nat \<Rightarrow> string \<Rightarrow> page \<Rightarrow> page" where
  "input_event k typed pg =
     (if k < length (cells pg)
      then (case td_content (cells pg ! k) of
              TextContent s \<Rightarrow> pg
            | InputChild input \<Rightarrow>
                (let this = input\<lparr>input_value := typed\<rparr>
                 in pg\<lparr>cells := (cells pg)[k := (cells pg ! k)\<lparr>td_content := InputChild this\<rparr>],
                       csvData := input_listener this (csvData pg)\<rparr>))
      else pg)"

subsection \<open>buildTable\<close>

definition row_cells :: "nat \<Rightarrow> string row \<Rightarrow> td list" where
  "row_cells rowIndex row =
     map (\<lambda>(col, v). \<lparr>data_column = col, data_rowIndex = rowIndex, td_content = TextContent v\<rparr>) row"

definition buildTable :: "page \<Rightarrow> page" where
  "buildTable pg =
     (case csvData pg of
        None \<Rightarrow> pg\<lparr>checkboxes := [], cells := []\<rparr>
      | Some [] \<Rightarrow> pg\<lparr>checkboxes := [], cells := []\<rparr>
      | Some (first # others) \<Rightarrow>
          pg\<lparr>checkboxes :=
               map (\<lambda>col. \<lparr>checkbox_column = col, checked = False\<rparr>) (Object_keys first),
             cells :=
               concat (map (\<lambda>rowIndex. row_cells rowIndex ((first # others) ! rowIndex))
                         [0..<length (first # others)])\<rparr>)"

text \<open>The \<^verbatim>\<open>complete\<close> callback of the file input, given \<^verbatim>\<open>results.data\<close>.\<close>

definition parse_complete :: "string row list \<Rightarrow> page \<Rightarrow> page" where
  "parse_complete results_data pg =
     (buildTable (pg\<lparr>csvData := Some results_data\<rparr>))\<lparr>downloadButton_shown := True\<rparr>"

subsection \<open>toggleModification\<close>

text \<open>
  The cells of a column are found with the selector \<^verbatim>\<open>td[data-column='<col>']\<close>, built by
  pasting the column name between single quotes. The selector is read as CSS: inside a
  quoted string a backslash followed by a character that is neither a hexadecimal digit
  nor a line break stands for that character. \<open>css_string_value\<close> gives the string such a
  selector compares \<^verbatim>\<open>data-column\<close> with. It is \<open>None\<close> for the names where the pasted text
  is not one quoted string read this way: a name with a single quote, a line break or a
  NUL character outside an escape, with a backslash before a hexadecimal digit, a line
  break or NUL, or with a backslash at its end. What the script does for those names is
  not modelled.
\<close>

definition css_hex_digit :: "char \<Rightarrow> bool" where
  "css_hex_digit c \<longleftrightarrow>
     (let n = (of_char c :: nat)
      in (48 \<le> n \<and> n \<le> 57) \<or> (65 \<le> n \<and> n \<le> 70) \<or> (97 \<le> n \<and> n \<le> 102))"

definition css_line_break :: "char \<Rightarrow> bool" where
  "css_line_break c \<longleftrightarrow> c = CHR 0x0A \<or> c = CHR 0x0C \<or> c = CHR 0x0D"

fun css_string_value :: "string \<Rightarrow> string option" where
  "css_string_value [] = Some []"
| "css_string_value [c] =
     (if c = backslash \<or> c = CHR 0x27 \<or> css_line_break c \<or> c = CHR 0x00 then None
      else Some [c])"
| "css_string_value (c # e # rest) =
     (if c = backslash
      then (if css_hex_digit e \<or> css_line_break e \<or> e = CHR 0x00 then None
            else map_option ((#) e) (css_string_value rest))
      else if c = CHR 0x27 \<or> css_line_break c \<or> c = CHR 0x00 then None
      else map_option ((#) c) (css_string_value (e # rest)))"

text \<open>
  The loop of lines 91 to 114 over the selected cells. \<open>selected\<close> is the string the
  selector compares with, \<open>col\<close> the column name of the checkbox. Reading
  \<^verbatim>\<open>csvData[rowIndex][col]\<close> throws when there is no such row, which ends the loop and
  leaves the remaining cells as they are. A value \<^verbatim>\<open>undefined\<close> becomes the text
  \<^verbatim>\<open>undefined\<close> in \<^verbatim>\<open>input.value\<close> and the empty text in \<^verbatim>\<open>textContent\<close>.
\<close>

fun toggle_cells :: "string \<Rightarrow> string \<Rightarrow> bool \<Rightarrow> string row list option \<Rightarrow> td list \<Rightarrow> td list" where
  "toggle_cells selected col isChecked data [] = []"
| "toggle_cells selected col isChecked data (cell # others) =
     (if data_column cell = selected
      then
        (let rowIndex = data_rowIndex cell
         in case read_cell data rowIndex col of
              TypeError \<Rightarrow> cell # others
            | Undefined \<Rightarrow>
                (if isChecked
                 then cell\<lparr>td_content := InputChild
                        \<lparr>input_value = ''undefined'', input_column = col,
                         input_rowIndex = rowIndex\<rparr>\<rparr>
                 else cell\<lparr>td_content := TextContent []\<rparr>)
                # toggle_cells selected col isChecked data others
            | Defined currentValue \<Rightarrow>
                (if isChecked
                 then cell\<lparr>td_content := InputChild
                        \<lparr>input_value = currentValue, input_column = col,
                         input_rowIndex = rowIndex\<rparr>\<rparr>
                 else cell\<lparr>td_content := TextContent currentValue\<rparr>)
                # toggle_cells selected col isChecked data others)
      else cell # toggle_cells selected col isChecked data others)"

definition toggleModification :: "checkbox \<Rightarrow> page \<Rightarrow> page option" where
  "toggleModification cb pg =
     (let col = checkbox_column cb; isChecked = checked cb
      in case css_string_value col of
           None \<Rightarrow> None
         | Some selected \<Rightarrow>
             Some (pg\<lparr>cells := toggle_cells selected col isChecked (csvData pg) (cells pg)\<rparr>))"

text \<open>
  The user clicks the checkbox at position \<open>j\<close> of the header: the browser flips it and
  the \<^verbatim>\<open>change\<close> listener calls \<^verbatim>\<open>toggleModification\<close> with it. Where the header has no
  such checkbox nothing happens.
\<close>

definition checkbox_change :: "nat \<Rightarrow> page \<Rightarrow> page option" where
  "checkbox_change j pg =
     (if j < length (checkboxes pg)
      then (let cb = (checkboxes pg ! j)\<lparr>checked := \<not> checked (checkboxes pg ! j)\<rparr>
            in toggleModification cb (pg\<lparr>checkboxes := (checkboxes pg)[j := cb]\<rparr>))
      else Some pg)"

subsection \<open>The download button\<close>

definition download_click :: "page \<Rightarrow> page" where
  "download_click pg =
     (if nothing_loaded (csvData pg)
      then pg\<lparr>alerts := alerts pg @ [''No CSV loaded to download.'']\<rparr>
      else (case csvData pg of
              None \<Rightarrow> pg
            | Some rows \<Rightarrow>
                pg\<lparr>downloads := downloads pg @
                     [\<lparr>filename = ''modified.csv'', blob = Papa_unparse rows\<rparr>]\<rparr>))"

section \<open>Notions used in the statements\<close>

text \<open>
  The properties of a row that \<^verbatim>\<open>JSON.stringify\<close> writes, in the row's own key order:
  those whose value is not \<^verbatim>\<open>undefined\<close>. For rows of strings this is the whole row.
\<close>

definition written :: "js_value row \<Rightarrow> js_value row" where
  "written row = filter (\<lambda>(k, v). v \<noteq> JUndefined) row"

fun member_text :: "string \<times> js_value \<Rightarrow> string" where
  "member_text (k, v) =
     QuoteJSONString k @ '':'' @ (case SerializeJSONProperty v of None \<Rightarrow> [] | Some strP \<Rightarrow> strP)"

text \<open>
  A blank row in the words of the specification: every cell is \<^verbatim>\<open>null\<close>, \<^verbatim>\<open>undefined\<close>, empty
  or made of white space only. The fields kept under \<^verbatim>\<open>__parsed_extra\<close> are cells of the
  row like the others.
\<close>

definition spec_blank_value :: "js_value \<Rightarrow> bool" where
  "spec_blank_value v =
     (case v of
        JString s \<Rightarrow> list_all js_whitespace s
      | JArray xs \<Rightarrow> list_all (list_all js_whitespace) xs
      | _ \<Rightarrow> True)"

definition spec_blank_row :: "js_value row \<Rightarrow> bool" where
  "spec_blank_row row = list_all spec_blank_value (Object_values row)"

text \<open>A row none of whose cells is an array.\<close>

definition scalar_row :: "js_value row \<Rightarrow> bool" where
  "scalar_row row = list_all (\<lambda>v. case v of JArray xs \<Rightarrow> False | _ \<Rightarrow> True) (Object_values row)"

text \<open>
  What reading and parsing yield for a file of an upload (\<open>None\<close> when a call throws), and
  the rows among it.
\<close>

definition file_results :: "services \<Rightarrow> upload_file \<Rightarrow> parse_results option" where
  "file_results sv file =
     (case file_location file of
        None \<Rightarrow> None
      | Some location \<Rightarrow>
          (case readFileSync sv location of
             None \<Rightarrow> None
           | Some content \<Rightarrow> Papa_parse sv content))"

definition parsed_file :: "services \<Rightarrow> upload_file \<Rightarrow> js_value row list option" where
  "parsed_file sv file = map_option parsed_data (file_results sv file)"

text \<open>
  The value of the last event, in a sequence of input events, that addressed the slot
  (\<open>i\<close>, \<open>c\<close>), if there is one.
\<close>

fun last_written :: "input_element list \<Rightarrow> nat \<Rightarrow> string \<Rightarrow> string option" where
  "last_written [] i c = None"
| "last_written (this # later) i c =
     (case last_written later i c of
        Some v \<Rightarrow> Some v
      | None \<Rightarrow>
          if input_rowIndex this = i \<and> input_column this = c then Some (input_value this)
          else None)"

text \<open>
  The events the script listens to, and the page after a history of them: a file has
  been parsed, the checkbox at a position of the header is clicked, a text is typed into
  the input of the cell at a position, the download button is clicked. The result is
  \<open>None\<close> when a checkbox click falls outside what \<open>toggleModification\<close> models.
\<close>

datatype user_event =
  FileParsed "string row list"
| CheckboxClicked nat
| Typed nat string
| DownloadClicked

fun step :: "user_event \<Rightarrow> page \<Rightarrow> page option" where
  "step (FileParsed results_data) pg = Some (parse_complete results_data pg)"
| "step (CheckboxClicked j) pg = checkbox_change j pg"
| "step (Typed k s) pg = Some (input_event k s pg)"
| "step DownloadClicked pg = Some (download_click pg)"

fun run :: "user_event list \<Rightarrow> page \<Rightarrow> page option" where
  "run [] pg = Some pg"
| "run (e # es) pg = (case step e pg of None \<Rightarrow> None | Some pg' \<Rightarrow> run es pg')"

text \<open>
  Every cell of the table belongs to a row of \<^verbatim>\<open>csvData\<close>, and an input carries the row
  index of the cell it sits in.
\<close>

definition cell_in_rows :: "string row list \<Rightarrow> td \<Rightarrow> bool" where
  "cell_in_rows rows cell \<longleftrightarrow>
     data_rowIndex cell < length rows
     \<and> (case td_content cell of
          TextContent s \<Rightarrow> True
        | InputChild input \<Rightarrow> input_rowIndex input = data_rowIndex cell)"

definition table_in_rows :: "page \<Rightarrow> bool" where
  "table_in_rows pg \<longleftrightarrow>
     (case csvData pg of
        None \<Rightarrow> False
      | Some rows \<Rightarrow> list_all (cell_in_rows rows) (cells pg))"

section \<open>Sample data for the closed examples\<close>

definition row_12 :: "js_value row" where
  "row_12 = [(''a'', JString ''1''), (''b'', JString ''2'')]"

definition row_21 :: "js_value row" where
  "row_21 = [(''b'', JString ''2''), (''a'', JString ''1'')]"

definition row_34 :: "js_value row" where
  "row_34 = [(''a'', JString ''3''), (''b'', JString ''4'')]"

definition row_56 :: "js_value row" where
  "row_56 = [(''a'', JString ''5''), (''b'', JString ''6'')]"

definition row_spaces :: "js_value row" where
  "row_spaces = [(''a'', JString '' ''), (''b'', JString [CHR 0x09])]"

text \<open>
  The row that Papa Parse makes of the line of four fields holding one space each, under
  the header \<^verbatim>\<open>a,b\<close>; and the row it makes of the line \<^verbatim>\<open>1\<close> under that header.
\<close>

definition row_surplus :: "js_value row" where
  "row_surplus =
     [(''a'', JString '' ''), (''b'', JString '' ''), (''__parsed_extra'', JArray ['' '', '' ''])]"

definition row_1 :: "js_value row" where
  "row_1 = [(''a'', JString ''1'')]"

text \<open>
  Four files on disk and the path of a file that is not there. The texts are
  \<^verbatim>\<open>a,b\n1,2\<close>, \<^verbatim>\<open>a,b\n3,4\<close>, a file whose only data row holds a space and a tab, and the
  malformed \<^verbatim>\<open>a,b\n1\<close> whose data row lacks a field; the rows and error codes are what
  Papa Parse makes of them. The serializer is given on the three arrays the examples
  serialize, with json2csv's default quoting; it throws on every other array, the empty
  one among them.
\<close>

definition text_12 :: string where
  "text_12 = ''a,b'' @ [CHR 0x0A] @ ''1,2''"

definition text_34 :: string where
  "text_34 = ''a,b'' @ [CHR 0x0A] @ ''3,4''"

definition text_spaces :: string where
  "text_spaces = ''a,b'' @ [CHR 0x0A] @ '' ,'' @ [CHR 0x09]"

definition csv_12 :: string where
  "csv_12 = [dquote] @ ''a'' @ [dquote] @ '','' @ [dquote] @ ''b'' @ [dquote] @ [CHR 0x0A]
          @ [dquote] @ ''1'' @ [dquote] @ '','' @ [dquote] @ ''2'' @ [dquote]"

definition csv_12_34 :: string where
  "csv_12_34 = csv_12 @ [CHR 0x0A] @ [dquote] @ ''3'' @ [dquote] @ '','' @ [dquote] @ ''4'' @ [dquote]"

definition text_short :: string where
  "text_short = ''a,b'' @ [CHR 0x0A] @ ''1''"

definition csv_12_1 :: string where
  "csv_12_1 = csv_12 @ [CHR 0x0A] @ [dquote] @ ''1'' @ [dquote] @ '',''"

definition sample_services :: services where
  "sample_services =
     \<lparr>readFileSync =
        map_of [(''/tmp/one.csv'', text_12), (''/tmp/two.csv'', text_34),
                (''/tmp/blank.csv'', text_spaces), (''/tmp/short.csv'', text_short)],
      Papa_parse =
        map_of [(text_12, \<lparr>parsed_data = [row_12], parsed_errors = []\<rparr>),
                (text_34, \<lparr>parsed_data = [row_34], parsed_errors = []\<rparr>),
                (text_spaces, \<lparr>parsed_data = [row_spaces], parsed_errors = []\<rparr>),
                (text_short, \<lparr>parsed_data = [row_1], parsed_errors = [''TooFewFields'']\<rparr>)],
      Parser_parse =
        map_of [([row_12], csv_12), ([row_12, row_34], csv_12_34), ([row_12, row_1], csv_12_1)]\<rparr>"

definition upload :: "string \<Rightarrow> upload_file" where
  "upload location = \<lparr>filepath = Some location, path = None\<rparr>"

definition post :: "upload_file list \<Rightarrow> request" where
  "post files = \<lparr>httpMethod = ''POST'', form_files = Some [(''files'', FileArray files)]\<rparr>"

text \<open>
  For the page script: the table of the specification's example, that table with the
  column \<^verbatim>\<open>age\<close> switched to editing, and a table with the two columns \<^verbatim>\<open>\x\<close> and
  \<^verbatim>\<open>x\<close>.
\<close>

definition people :: "string row list" where
  "people = [[(''name'', ''Alice''), (''age'', ''30'')], [(''name'', ''Bob''), (''age'', ''25'')]]"

definition people_page :: page where
  "people_page = parse_complete people initial_page"

definition people_editing :: page where
  "people_editing =
     people_page
       \<lparr>checkboxes := [\<lparr>checkbox_column = ''name'', checked = False\<rparr>,
                       \<lparr>checkbox_column = ''age'', checked = True\<rparr>],
        cells :=
          [\<lparr>data_column = ''name'', data_rowIndex = 0, td_content = TextContent ''Alice''\<rparr>,
           \<lparr>data_column = ''age'', data_rowIndex = 0,
            td_content = InputChild
              \<lparr>input_value = ''30'', input_column = ''age'', input_rowIndex = 0\<rparr>\<rparr>,
           \<lparr>data_column = ''name'', data_rowIndex = 1, td_content = TextContent ''Bob''\<rparr>,
           \<lparr>data_column = ''age'', data_rowIndex = 1,
            td_content = InputChild
              \<lparr>input_value = ''25'', input_column = ''age'', input_rowIndex = 1\<rparr>\<rparr>]\<rparr>"

definition escaped_x :: string where
  "escaped_x = [backslash, CHR ''x'']"

definition escaped_page :: page where
  "escaped_page = parse_complete [[(escaped_x, ''1''), (''x'', ''2'')]] initial_page"

section \<open>JSON.stringify separates rows\<close>

lemma hex_digit_inj: "a < 16 \<Longrightarrow> b < 16 \<Longrightarrow> hex_digit a = hex_digit b \<Longrightarrow> a = b"
proof -
  assume a: "a < 16" and b: "b < 16" and e: "hex_digit a = hex_digit b"
  have "(of_char (hex_digit a) :: nat) = of_char (hex_digit b)" using e by simp
  then show ?thesis using a b by (simp add: hex_digit_def split: if_splits)
qed

lemma control_code_inj:
  assumes "(of_char c :: nat) < 32" "(of_char d :: nat) < 32"
    and "hex_digit (of_char c div 16) = hex_digit (of_char d div 16)"
    and "hex_digit (of_char c mod 16) = hex_digit (of_char d mod 16)"
  shows "c = d"
proof -
  let ?m = "of_char c :: nat" and ?n = "of_char d :: nat"
  have "?m div 16 = ?n div 16" using assms by (intro hex_digit_inj) auto
  moreover have "?m mod 16 = ?n mod 16" using assms by (intro hex_digit_inj) auto
  ultimately have "?m = ?n" by (metis div_mult_mod_eq)
  then show ?thesis by simp
qed

text \<open>No escape is the beginning of another one.\<close>

lemma json_escape_prefix:
  assumes "json_escape c @ x = json_escape d @ y"
  shows "c = d \<and> x = y"
  using assms
  apply (simp add: json_escape_def backslash_def dquote_def split: if_splits)
  apply (auto dest: control_code_inj)
  done

lemma json_escape_head: "json_escape c @ x \<noteq> dquote # y"
  by (simp add: json_escape_def backslash_def dquote_def)

lemma escaped_body_inj:
  "concat (map json_escape s) @ dquote # x = concat (map json_escape t) @ dquote # y
   \<Longrightarrow> s = t \<and> x = y"
proof (induction s arbitrary: t)
  case Nil
  then show ?case
    by (cases t) (auto simp: json_escape_head [symmetric])
next
  case (Cons c s)
  show ?case
  proof (cases t)
    case Nil
    with Cons.prems show ?thesis by (auto simp: json_escape_head)
  next
    case (Cons d t')
    with Cons.prems have "json_escape c @ (concat (map json_escape s) @ dquote # x)
        = json_escape d @ (concat (map json_escape t') @ dquote # y)"
      by simp
    then have "c = d" and "concat (map json_escape s) @ dquote # x
        = concat (map json_escape t') @ dquote # y"
      by (auto dest: json_escape_prefix)
    with Cons.IH [of t'] Cons show ?thesis by simp
  qed
qed

lemma QuoteJSONString_inj:
  "QuoteJSONString s @ x = QuoteJSONString t @ y \<Longrightarrow> s = t \<and> x = y"
  using escaped_body_inj [of s x t y] by (simp add: QuoteJSONString_def)

lemma QuoteJSONString_head:
  "QuoteJSONString s @ x \<noteq> ''null'' @ y"
  "QuoteJSONString s @ x \<noteq> CHR ''['' # y"
  "QuoteJSONString s @ x \<noteq> CHR '']'' # y"
  "QuoteJSONString s @ x \<noteq> CHR ''}'' # y"
  by (simp_all add: QuoteJSONString_def dquote_def)

lemma join_commas_Cons:
  "join_commas (p # ps) = p @ (if ps = [] then [] else '','' @ join_commas ps)"
  by (cases ps) simp_all

text \<open>
  Texts joined by commas and closed by a character \<open>t\<close> can be taken apart again, when no
  text is the beginning of another one and none begins with \<open>t\<close>.
\<close>

lemma joined_inj:
  assumes sep: "\<And>p q x y. P p \<Longrightarrow> P q \<Longrightarrow> f p @ x = f q @ y \<Longrightarrow> p = q \<and> x = y"
    and head: "\<And>p x y. P p \<Longrightarrow> f p @ x \<noteq> t # y"
    and t: "t \<noteq> CHR '',''"
    and "\<forall>p \<in> set ps. P p" "\<forall>q \<in> set qs. P q"
    and "join_commas (map f ps) @ t # x = join_commas (map f qs) @ t # y"
  shows "ps = qs \<and> x = y"
  using assms(4-6)
proof (induction ps arbitrary: qs)
  case Nil
  show ?case
  proof (cases qs)
    case Nil
    with Nil.prems show ?thesis by simp
  next
    case (Cons q qs')
    with Nil.prems have "P q" by simp
    from head [OF this] Nil.prems(3) Cons show ?thesis
      by (simp add: join_commas_Cons) metis
  qed
next
  case (Cons p ps)
  from Cons.prems have Pp: "P p" by simp
  show ?case
  proof (cases qs)
    case Nil
    with Cons.prems head [OF Pp] show ?thesis
      by (simp add: join_commas_Cons)
  next
    case qs: (Cons q qs')
    with Cons.prems have Pq: "P q" by simp
    let ?rest = "\<lambda>ms z. (if ms = [] then [] else '','' @ join_commas (map f ms)) @ t # z"
    from Cons.prems(3) have "f p @ ?rest ps x = f q @ ?rest qs' y"
      by (simp add: qs join_commas_Cons)
    from sep [OF Pp Pq this] have pq: "p = q" and rest: "?rest ps x = ?rest qs' y"
      by simp_all
    have "ps = qs' \<and> x = y"
    proof (cases "ps = []")
      case True
      with rest t show ?thesis by (cases "qs' = []") auto
    next
      case False
      with rest t have ne: "qs' \<noteq> []" by (cases "qs' = []") auto
      with False rest have "join_commas (map f ps) @ t # x = join_commas (map f qs') @ t # y"
        by simp
      with Cons.IH [of qs'] Cons.prems(1,2) show ?thesis by (simp add: qs)
    qed
    with pq show ?thesis by (simp add: qs)
  qed
qed

lemma array_text_inj:
  assumes "join_commas (map QuoteJSONString xs) @ CHR '']'' # x
         = join_commas (map QuoteJSONString ys) @ CHR '']'' # y"
  shows "xs = ys \<and> x = y"
proof (rule joined_inj [where P = "\<lambda>s. True" and f = QuoteJSONString and t = "CHR '']''"])
  show "\<And>p q x y. True \<Longrightarrow> True \<Longrightarrow> QuoteJSONString p @ x = QuoteJSONString q @ y
      \<Longrightarrow> p = q \<and> x = y"
    by (rule QuoteJSONString_inj)
  show "\<And>p x y. True \<Longrightarrow> QuoteJSONString p @ x \<noteq> CHR '']'' # y"
    by (rule QuoteJSONString_head)
  show "CHR '']'' \<noteq> CHR '',''" by simp
  show "\<forall>p \<in> set xs. True" "\<forall>q \<in> set ys. True" by simp_all
  show "join_commas (map QuoteJSONString xs) @ CHR '']'' # x
      = join_commas (map QuoteJSONString ys) @ CHR '']'' # y"
    by (rule assms)
qed

lemma property_text_inj:
  assumes "SerializeJSONProperty v = Some a" "SerializeJSONProperty w = Some b"
    and "a @ x = b @ y"
  shows "v = w \<and> x = y"
proof (cases v)
  case JNull
  with assms show ?thesis
    by (cases w) (auto simp: QuoteJSONString_head(1) [symmetric, simplified])
next
  case JUndefined
  with assms show ?thesis by simp
next
  case (JString s)
  with assms show ?thesis
    by (cases w)
      (auto simp: QuoteJSONString_head(1) [simplified] QuoteJSONString_head(2)
        dest: QuoteJSONString_inj)
next
  case (JArray xs)
  with assms show ?thesis
    by (cases w)
      (auto simp: QuoteJSONString_head(2) [symmetric] dest: array_text_inj)
qed

lemma json_members_written: "json_members row = map member_text (written row)"
proof (induction row)
  case Nil
  show ?case by (simp add: json_members_def written_def map_filter_simps)
next
  case (Cons p row)
  obtain k v where p: "p = (k, v)" by (cases p)
  from Cons show ?case
    by (cases v) (simp_all add: p json_members_def written_def map_filter_simps)
qed

lemma member_text_inj:
  assumes "snd p \<noteq> JUndefined" "snd q \<noteq> JUndefined"
    and "member_text p @ x = member_text q @ y"
  shows "p = q \<and> x = y"
proof -
  obtain k v where p: "p = (k, v)" by (cases p)
  obtain k' v' where q: "q = (k', v')" by (cases q)
  from assms(1) obtain a where a: "SerializeJSONProperty v = Some a"
    by (cases v) (simp_all add: p)
  from assms(2) obtain b where b: "SerializeJSONProperty v' = Some b"
    by (cases v') (simp_all add: q)
  from assms(3) have "QuoteJSONString k @ ('':'' @ a @ x) = QuoteJSONString k' @ ('':'' @ b @ y)"
    by (simp add: p q a b)
  then have "k = k'" and "a @ x = b @ y"
    by (auto dest: QuoteJSONString_inj)
  with property_text_inj [OF a b] show ?thesis by (simp add: p q)
qed

lemma member_text_head: "member_text p @ x \<noteq> CHR ''}'' # y"
  by (cases p) (simp add: QuoteJSONString_def dquote_def)

lemma members_inj:
  assumes "\<forall>p \<in> set ps. snd p \<noteq> JUndefined" "\<forall>q \<in> set qs. snd q \<noteq> JUndefined"
    and "join_commas (map member_text ps) @ CHR ''}'' # x
       = join_commas (map member_text qs) @ CHR ''}'' # y"
  shows "ps = qs \<and> x = y"
proof (rule joined_inj [where P = "\<lambda>p. snd p \<noteq> JUndefined" and f = member_text
      and t = "CHR ''}''"])
  show "\<And>p q x y. snd p \<noteq> JUndefined \<Longrightarrow> snd q \<noteq> JUndefined
      \<Longrightarrow> member_text p @ x = member_text q @ y \<Longrightarrow> p = q \<and> x = y"
    by (rule member_text_inj)
  show "\<And>p x y. snd p \<noteq> JUndefined \<Longrightarrow> member_text p @ x \<noteq> CHR ''}'' # y"
    by (rule member_text_head)
  show "CHR ''}'' \<noteq> CHR '',''" by simp
  show "\<forall>p \<in> set ps. snd p \<noteq> JUndefined" "\<forall>q \<in> set qs. snd q \<noteq> JUndefined"
    by (rule assms)+
  show "join_commas (map member_text ps) @ CHR ''}'' # x
      = join_commas (map member_text qs) @ CHR ''}'' # y"
    by (rule assms)
qed

lemma written_defined: "\<forall>p \<in> set (written row). snd p \<noteq> JUndefined"
  by (auto simp: written_def)

text \<open>Two rows get the same key exactly when they write the same properties in the same order.\<close>

lemma JSON_stringify_eq_iff:
  "JSON_stringify r = JSON_stringify r' \<longleftrightarrow> written r = written r'"
proof
  assume "JSON_stringify r = JSON_stringify r'"
  then have "join_commas (map member_text (written r)) @ CHR ''}'' # []
      = join_commas (map member_text (written r')) @ CHR ''}'' # []"
    by (simp add: JSON_stringify_def json_members_written)
  with members_inj [OF written_defined written_defined] show "written r = written r'"
    by blast
next
  assume "written r = written r'"
  then show "JSON_stringify r = JSON_stringify r'"
    by (simp add: JSON_stringify_def json_members_written)
qed

section \<open>The blank-row filter and the duplicate filter\<close>

lemma js_trim_empty_iff: "js_trim s = [] \<longleftrightarrow> (\<forall>c \<in> set s. js_whitespace c)"
proof
  assume "js_trim s = []"
  then have "dropWhile js_whitespace (rev (dropWhile js_whitespace s)) = []"
    by (simp add: js_trim_def)
  then have all: "\<forall>c \<in> set (dropWhile js_whitespace s). js_whitespace c"
    by (simp add: dropWhile_eq_Nil_conv)
  have "dropWhile js_whitespace s = []"
  proof (rule ccontr)
    assume ne: "dropWhile js_whitespace s \<noteq> []"
    then have "\<not> js_whitespace (hd (dropWhile js_whitespace s))"
      by (rule hd_dropWhile)
    moreover from ne have "hd (dropWhile js_whitespace s) \<in> set (dropWhile js_whitespace s)"
      by simp
    ultimately show False using all by blast
  qed
  then show "\<forall>c \<in> set s. js_whitespace c"
    by (simp add: dropWhile_eq_Nil_conv)
next
  assume "\<forall>c \<in> set s. js_whitespace c"
  then show "js_trim s = []"
    by (auto simp: js_trim_def dropWhile_eq_Nil_conv dest: set_dropWhileD)
qed

text \<open>
  The text of an array is white space only exactly when the array has at most one
  element and that element is: the comma that joins two elements is not white space.
\<close>

lemma join_commas_whitespace:
  "(\<forall>c \<in> set (join_commas xs). js_whitespace c)
   \<longleftrightarrow> length xs \<le> 1 \<and> (\<forall>x \<in> set xs. \<forall>c \<in> set x. js_whitespace c)"
proof (induction xs rule: join_commas.induct)
  case 1
  show ?case by simp
next
  case (2 p)
  show ?case by simp
next
  case (3 p q ps)
  have "\<not> js_whitespace (CHR '','')"
    by (simp add: js_whitespace_def)
  then show ?case by auto
qed

lemma nonblank_value_iff:
  "nonblank_value v \<longleftrightarrow> \<not> spec_blank_value v \<or> (\<exists>xs. v = JArray xs \<and> 2 \<le> length xs)"
proof (cases v)
  case (JArray xs)
  have "nonblank_value (JArray xs) \<longleftrightarrow> \<not> (\<forall>c \<in> set (join_commas xs). js_whitespace c)"
    by (simp add: nonblank_value_def js_trim_empty_iff)
  also have "\<dots> \<longleftrightarrow> \<not> (length xs \<le> 1 \<and> (\<forall>x \<in> set xs. \<forall>c \<in> set x. js_whitespace c))"
    by (simp only: join_commas_whitespace)
  also have "\<dots> \<longleftrightarrow> \<not> spec_blank_value (JArray xs) \<or> 2 \<le> length xs"
    by (auto simp: spec_blank_value_def list_all_iff)
  finally show ?thesis using JArray by simp
qed (simp_all add: nonblank_value_def spec_blank_value_def js_trim_empty_iff list_all_iff)

text \<open>A row with a cell that is not blank is kept by the filter.\<close>

lemma not_blank_row_kept:
  "\<not> spec_blank_row row \<Longrightarrow> list_ex nonblank_value (Object_values row)"
  by (auto simp: spec_blank_row_def list_ex_iff list_all_iff nonblank_value_iff)

text \<open>On rows without array cells the filter keeps exactly the rows that are not blank.\<close>

lemma kept_row_iff:
  "scalar_row row \<Longrightarrow> list_ex nonblank_value (Object_values row) \<longleftrightarrow> \<not> spec_blank_row row"
  by (auto simp: scalar_row_def spec_blank_row_def list_ex_iff list_all_iff nonblank_value_iff)

lemma remove_empty_rows_scalar:
  "list_all scalar_row allData
   \<Longrightarrow> remove_empty_rows allData = filter (\<lambda>row. \<not> spec_blank_row row) allData"
  by (auto simp: remove_empty_rows_def list_all_iff kept_row_iff intro: filter_cong)

text \<open>Rows without array cells that are all blank are all removed.\<close>

lemma blank_rows_removed:
  "list_all scalar_row allData \<Longrightarrow> list_all spec_blank_row allData
   \<Longrightarrow> remove_empty_rows allData = []"
  by (simp add: remove_empty_rows_scalar list_all_iff)

lemma written_sample_rows [simp]:
  "written row_12 = row_12" "written row_34 = row_34" "written row_spaces = row_spaces"
  by (simp_all add: written_def row_12_def row_34_def row_spaces_def)

lemma kept_sample_rows [simp]:
  "list_ex nonblank_value (Object_values row_12)"
  "list_ex nonblank_value (Object_values row_34)"
  "\<not> list_ex nonblank_value (Object_values row_spaces)"
  by (simp_all add: nonblank_value_iff spec_blank_value_def Object_values_def js_whitespace_def
      row_12_def row_34_def row_spaces_def)

lemma distinct_sample_rows [simp]: "row_12 \<noteq> row_34" "row_34 \<noteq> row_12"
  by (simp_all add: row_12_def row_34_def)

lemma dedup_loop_indices:
  "dedup_loop rows seen uniqueData =
     uniqueData @ map (\<lambda>i. rows ! i)
       (filter (\<lambda>i. JSON_stringify (rows ! i) \<notin> seen
                    \<and> (\<forall>j<i. JSON_stringify (rows ! j) \<noteq> JSON_stringify (rows ! i)))
          [0..<length rows])"
proof (induction rows arbitrary: seen uniqueData)
  case Nil
  show ?case by simp
next
  case (Cons row rows)
  have upt: "[0..<Suc (length rows)] = 0 # map Suc [0..<length rows]"
    by (simp add: upt_conv_Cons map_Suc_upt del: upt_Suc)
  show ?case
  proof (cases "JSON_stringify row \<in> seen")
    case True
    have "(\<lambda>i. JSON_stringify (rows ! i) \<notin> seen
             \<and> JSON_stringify row \<noteq> JSON_stringify (rows ! i)
             \<and> (\<forall>j<i. JSON_stringify (rows ! j) \<noteq> JSON_stringify (rows ! i)))
        = (\<lambda>i. JSON_stringify (rows ! i) \<notin> seen
             \<and> (\<forall>j<i. JSON_stringify (rows ! j) \<noteq> JSON_stringify (rows ! i)))"
      using True by (intro ext) auto
    with True Cons.IH [of seen uniqueData] show ?thesis
      by (simp add: upt filter_map comp_def All_less_Suc2 del: upt_Suc)
  next
    case False
    have "(\<lambda>i. JSON_stringify (rows ! i) \<notin> seen
             \<and> JSON_stringify row \<noteq> JSON_stringify (rows ! i)
             \<and> (\<forall>j<i. JSON_stringify (rows ! j) \<noteq> JSON_stringify (rows ! i)))
        = (\<lambda>i. JSON_stringify (rows ! i) \<noteq> JSON_stringify row
             \<and> JSON_stringify (rows ! i) \<notin> seen
             \<and> (\<forall>j<i. JSON_stringify (rows ! j) \<noteq> JSON_stringify (rows ! i)))"
      by (intro ext) auto
    with False Cons.IH [of "insert (JSON_stringify row) seen" "uniqueData @ [row]"] show ?thesis
      by (simp add: upt filter_map comp_def All_less_Suc2 del: upt_Suc)
  qed
qed

lemma remove_duplicates_indices:
  "remove_duplicates allData =
     map (\<lambda>i. allData ! i)
       (filter (\<lambda>i. \<forall>j<i. written (allData ! j) \<noteq> written (allData ! i)) [0..<length allData])"
  by (simp add: remove_duplicates_def dedup_loop_indices JSON_stringify_eq_iff)

section \<open>Claims about the merge\<close>

text \<open>
  C6 at the row that Papa Parse makes of a line of four fields holding one space each,
  under the header \<^verbatim>\<open>a,b\<close>. Every cell of the row is blank, and the filter keeps the row:
  the text of the two surplus fields is the two spaces joined by a comma.
\<close>

theorem blank_row_with_surplus_fields_kept:
  "spec_blank_row row_surplus
   \<and> remove_empty_rows [row_surplus] = [row_surplus]
   \<and> merge_rows [[row_12], [row_surplus]] = [row_12, row_surplus]"
proof -
  have blank: "spec_blank_row row_surplus"
    by (simp add: spec_blank_row_def spec_blank_value_def Object_values_def js_whitespace_def
        row_surplus_def)
  have kept: "list_ex nonblank_value (Object_values row_surplus)"
    by (simp add: nonblank_value_iff Object_values_def row_surplus_def)
  have "written row_surplus \<noteq> written row_12"
    by (simp add: written_def row_surplus_def row_12_def)
  with blank kept show ?thesis
    by (simp add: remove_empty_rows_def merge_rows_def remove_duplicates_def
        JSON_stringify_eq_iff)
qed

text \<open>
  C1, as the code has it. The duplicate filter keeps the row at position \<open>i\<close> exactly when
  no earlier row writes the same properties in the same key order with the same values;
  the rows kept stay in their order. Merging the files \<open>[r1, r2]\<close> and \<open>[r2, r3]\<close>, with
  the three rows not blank and different in that sense, gives \<open>[r1, r2, r3]\<close>.
\<close>

theorem duplicate_filter:
  "remove_duplicates allData =
     map (\<lambda>i. allData ! i)
       (filter (\<lambda>i. \<forall>j<i. written (allData ! j) \<noteq> written (allData ! i)) [0..<length allData])
   \<and> (list_ex nonblank_value (Object_values r1) \<and> list_ex nonblank_value (Object_values r2)
        \<and> list_ex nonblank_value (Object_values r3)
        \<and> written r1 \<noteq> written r2 \<and> written r2 \<noteq> written r3 \<and> written r1 \<noteq> written r3
      \<longrightarrow> merge_rows [[r1, r2], [r2, r3]] = [r1, r2, r3])"
proof (intro conjI impI)
  show "remove_duplicates allData =
     map (\<lambda>i. allData ! i)
       (filter (\<lambda>i. \<forall>j<i. written (allData ! j) \<noteq> written (allData ! i)) [0..<length allData])"
    by (rule remove_duplicates_indices)
next
  assume "list_ex nonblank_value (Object_values r1) \<and> list_ex nonblank_value (Object_values r2)
        \<and> list_ex nonblank_value (Object_values r3)
        \<and> written r1 \<noteq> written r2 \<and> written r2 \<noteq> written r3 \<and> written r1 \<noteq> written r3"
  then show "merge_rows [[r1, r2], [r2, r3]] = [r1, r2, r3]"
    by (auto simp: merge_rows_def remove_empty_rows_def remove_duplicates_def
        JSON_stringify_eq_iff Let_def)
qed

theorem duplicate_filter_witness:
  "remove_duplicates [row_12, row_34, row_12] = [row_12, row_34]
   \<and> list_ex nonblank_value (Object_values row_12)
   \<and> list_ex nonblank_value (Object_values row_34)
   \<and> list_ex nonblank_value (Object_values row_56)
   \<and> written row_12 \<noteq> written row_34 \<and> written row_34 \<noteq> written row_56
   \<and> written row_12 \<noteq> written row_56
   \<and> merge_rows [[row_12, row_34], [row_34, row_56]] = [row_12, row_34, row_56]"
proof -
  have w: "written row_56 = row_56"
    by (simp add: written_def row_56_def)
  have b: "list_ex nonblank_value (Object_values row_56)"
    by (simp add: nonblank_value_iff spec_blank_value_def Object_values_def js_whitespace_def
        row_56_def)
  have d: "row_12 \<noteq> row_56" "row_34 \<noteq> row_56"
    by (simp_all add: row_12_def row_34_def row_56_def)
  show ?thesis
    using duplicate_filter [of "[row_12, row_34, row_12]" row_12 row_34 row_56]
    by (simp add: w b d upt_rec [of 0] upt_rec [of 1] upt_rec [of 2]
        upt_rec [of 3] less_Suc_eq numeral_3_eq_3 numeral_2_eq_2)
qed

text \<open>
  C1 as stated fails: two rows with the same set of (column, value) pairs whose columns
  come in a different order are both kept.
\<close>

theorem duplicate_filter_counterexample:
  "set row_12 = set row_21 \<and> merge_rows [[row_12], [row_21]] = [row_12, row_21]"
proof -
  have "set row_12 = set row_21"
    by (auto simp: row_12_def row_21_def)
  moreover have "written row_21 = row_21"
    by (simp add: written_def row_21_def)
  moreover have "list_ex nonblank_value (Object_values row_21)"
    by (simp add: nonblank_value_iff spec_blank_value_def Object_values_def js_whitespace_def
        row_21_def)
  moreover have "row_21 \<noteq> row_12"
    by (simp add: row_12_def row_21_def)
  ultimately show ?thesis
    by (simp add: merge_rows_def remove_empty_rows_def remove_duplicates_def
        JSON_stringify_eq_iff)
qed

section \<open>Claims about the handler\<close>

lemma read_files_parsed_file:
  "read_files sv (file # files) allData =
     (case parsed_file sv file of
        None \<Rightarrow> None
      | Some data \<Rightarrow> read_files sv files (allData @ data))"
  by (simp add: parsed_file_def file_results_def split: option.splits)

lemma read_files_throws:
  "file \<in> set files \<Longrightarrow> parsed_file sv file = None \<Longrightarrow> read_files sv files allData = None"
proof (induction files arbitrary: allData)
  case Nil
  then show ?case by simp
next
  case (Cons f files)
  show ?case
  proof (cases "parsed_file sv f")
    case None
    then show ?thesis by (simp only: read_files_parsed_file option.case)
  next
    case (Some data)
    with Cons.prems have "file \<in> set files" by auto
    with Cons.IH Cons.prems(2) Some show ?thesis
      by (simp only: read_files_parsed_file option.case)
  qed
qed

lemma read_files_concat:
  "map (parsed_file sv) files = map Some parsed
   \<Longrightarrow> read_files sv files allData = Some (allData @ concat parsed)"
proof (induction files arbitrary: allData parsed)
  case Nil
  then show ?case by simp
next
  case (Cons f files)
  from Cons.prems obtain data rest where parsed: "parsed = data # rest"
    and f: "parsed_file sv f = Some data"
    and files: "map (parsed_file sv) files = map Some rest"
    by (cases parsed) auto
  from Cons.IH [OF files] f show ?case
    by (simp only: read_files_parsed_file option.case parsed concat.simps append_assoc)
qed

lemma parsed_file_results:
  "map (file_results sv) files = map Some results
   \<Longrightarrow> map (parsed_file sv) files = map Some (map parsed_data results)"
proof (induction files arbitrary: results)
  case Nil
  then show ?case by simp
next
  case (Cons f files)
  then show ?case
    by (cases results) (auto simp: parsed_file_def)
qed

lemma handler_post:
  "handler sv \<lparr>httpMethod = ''POST'', form_files = Some files\<rparr> =
     (if fileArray_of files = []
      then \<lparr>statusCode = 400, headers = [], body = ''No files uploaded''\<rparr>
      else (case read_files sv (fileArray_of files) [] of
              None \<Rightarrow> server_error
            | Some allData \<Rightarrow>
                (case Parser_parse sv (remove_duplicates (remove_empty_rows allData)) of
                   None \<Rightarrow> server_error
                 | Some csv \<Rightarrow> csv_response csv)))"
  by (simp add: handler_def Let_def split: option.split)

text \<open>
  When reading or parsing a file throws, the answer is the fixed status 500 response.
\<close>

lemma handler_throws:
  assumes "httpMethod event = ''POST''" "form_files event = Some files"
    and "file \<in> set (fileArray_of files)" "parsed_file sv file = None"
  shows "handler sv event = server_error"
proof -
  from assms(3,4) have "read_files sv (fileArray_of files) [] = None"
    by (rule read_files_throws)
  moreover from assms(3) have "fileArray_of files \<noteq> []" by auto
  ultimately show ?thesis
    using assms(1,2) by (simp add: handler_def Let_def)
qed

text \<open>
  When every file is read and parsed, the array given to the serializer is \<open>merge_rows\<close>
  of the rows of the files, and the answer depends on nothing else.
\<close>

lemma handler_merges:
  assumes "httpMethod event = ''POST''" "form_files event = Some files"
    and "fileArray_of files \<noteq> []"
    and "map (parsed_file sv) (fileArray_of files) = map Some parsed"
  shows "handler sv event =
     (case Parser_parse sv (merge_rows parsed) of
        None \<Rightarrow> server_error
      | Some csv \<Rightarrow> csv_response csv)"
proof -
  from assms(4) have "read_files sv (fileArray_of files) [] = Some (concat parsed)"
    using read_files_concat [of sv "fileArray_of files" parsed "[]"] by simp
  with assms(1-3) show ?thesis
    by (simp add: handler_def Let_def merge_rows_def)
qed

lemma sample_file_results [simp]:
  "file_results sample_services (upload ''/tmp/one.csv'')
     = Some \<lparr>parsed_data = [row_12], parsed_errors = []\<rparr>"
  "file_results sample_services (upload ''/tmp/two.csv'')
     = Some \<lparr>parsed_data = [row_34], parsed_errors = []\<rparr>"
  "file_results sample_services (upload ''/tmp/blank.csv'')
     = Some \<lparr>parsed_data = [row_spaces], parsed_errors = []\<rparr>"
  "file_results sample_services (upload ''/tmp/missing.csv'') = None"
  by (simp_all add: file_results_def sample_services_def upload_def file_location_def
      text_12_def text_34_def text_spaces_def text_short_def)

lemma sample_parsed_file [simp]:
  "parsed_file sample_services (upload ''/tmp/one.csv'') = Some [row_12]"
  "parsed_file sample_services (upload ''/tmp/two.csv'') = Some [row_34]"
  "parsed_file sample_services (upload ''/tmp/blank.csv'') = Some [row_spaces]"
  "parsed_file sample_services (upload ''/tmp/missing.csv'') = None"
  by (simp_all add: parsed_file_def)

lemma sample_Parser_parse [simp]:
  "Parser_parse sample_services [] = None"
  "Parser_parse sample_services [row_12] = Some csv_12"
  "Parser_parse sample_services [row_12, row_34] = Some csv_12_34"
  by (simp_all add: sample_services_def)

lemma sample_merges [simp]:
  "merge_rows [[row_12]] = [row_12]"
  "merge_rows [[row_12], [row_34]] = [row_12, row_34]"
  "merge_rows [[row_spaces], [row_spaces]] = []"
  by (simp_all add: merge_rows_def remove_empty_rows_def remove_duplicates_def
      JSON_stringify_eq_iff)

text \<open>
  C2, as the code has it. A POST whose form was parsed is answered with status 400 and the
  body \<^verbatim>\<open>No files uploaded\<close>, without reading or serializing anything, exactly when it
  carries no file under the form field \<^verbatim>\<open>files\<close>: no upload at all, an empty list, or
  uploads under other field names only. With one file or more under that field the
  status is never 400 and the merge runs, for one file as for any larger number: the
  answer is the fixed status 500 response when reading or parsing a file throws, and
  otherwise what the serializer makes of the merged rows of the files, the status 200
  response with its text or the status 500 response when it throws.
\<close>

theorem no_files_400:
  "httpMethod event = ''POST'' \<and> form_files event = Some files \<longrightarrow>
     (fileArray_of files = []
        \<longleftrightarrow> map_of files ''files'' = None \<or> map_of files ''files'' = Some (FileArray []))
     \<and> (fileArray_of files = [] \<longrightarrow>
          handler sv event = \<lparr>statusCode = 400, headers = [], body = ''No files uploaded''\<rparr>)
     \<and> (fileArray_of files \<noteq> [] \<longrightarrow>
          statusCode (handler sv event) \<noteq> 400
          \<and> (file \<in> set (fileArray_of files) \<and> parsed_file sv file = None
               \<longrightarrow> handler sv event = server_error)
          \<and> (map (parsed_file sv) (fileArray_of files) = map Some parsed
               \<longrightarrow> handler sv event =
                    (case Parser_parse sv (merge_rows parsed) of
                       None \<Rightarrow> server_error
                     | Some csv \<Rightarrow> csv_response csv)))"
proof (intro impI conjI)
  show "fileArray_of files = []
      \<longleftrightarrow> map_of files ''files'' = None \<or> map_of files ''files'' = Some (FileArray [])"
    by (simp add: fileArray_of_def split: option.splits files_field.splits)
next
  assume "httpMethod event = ''POST'' \<and> form_files event = Some files"
    and "fileArray_of files = []"
  then show "handler sv event = \<lparr>statusCode = 400, headers = [], body = ''No files uploaded''\<rparr>"
    by (simp add: handler_def Let_def)
next
  assume "httpMethod event = ''POST'' \<and> form_files event = Some files"
    and "fileArray_of files \<noteq> []"
  then show "statusCode (handler sv event) \<noteq> 400"
    by (simp add: handler_def Let_def server_error_def csv_response_def split: option.splits)
next
  assume "httpMethod event = ''POST'' \<and> form_files event = Some files"
    and "file \<in> set (fileArray_of files) \<and> parsed_file sv file = None"
  then show "handler sv event = server_error"
    by (auto intro: handler_throws)
next
  assume "httpMethod event = ''POST'' \<and> form_files event = Some files"
    and "fileArray_of files \<noteq> []"
    and "map (parsed_file sv) (fileArray_of files) = map Some parsed"
  then show "handler sv event =
      (case Parser_parse sv (merge_rows parsed) of
         None \<Rightarrow> server_error
       | Some csv \<Rightarrow> csv_response csv)"
    by (simp add: handler_merges)
qed

theorem no_files_400_witness:
  "handler sample_services \<lparr>httpMethod = ''POST'', form_files = Some []\<rparr>
     = \<lparr>statusCode = 400, headers = [], body = ''No files uploaded''\<rparr>
   \<and> handler sample_services
       \<lparr>httpMethod = ''POST'', form_files = Some [(''file'', SingleFile (upload ''/tmp/one.csv''))]\<rparr>
     = \<lparr>statusCode = 400, headers = [], body = ''No files uploaded''\<rparr>
   \<and> handler sample_services (post []) =
       \<lparr>statusCode = 400, headers = [], body = ''No files uploaded''\<rparr>
   \<and> fileArray_of [(''files'', FileArray [upload ''/tmp/one.csv''])] \<noteq> []
   \<and> handler sample_services (post [upload ''/tmp/one.csv'']) = csv_response csv_12
   \<and> handler sample_services (post [upload ''/tmp/one.csv'', upload ''/tmp/two.csv''])
     = csv_response csv_12_34
   \<and> upload ''/tmp/missing.csv'' \<in> set (fileArray_of [(''files'', FileArray [upload ''/tmp/missing.csv''])])
   \<and> parsed_file sample_services (upload ''/tmp/missing.csv'') = None
   \<and> handler sample_services (post [upload ''/tmp/missing.csv'']) = server_error"
  using
    no_files_400 [of "\<lparr>httpMethod = ''POST'', form_files = Some []\<rparr>" "[]" sample_services]
    no_files_400 [of
      "\<lparr>httpMethod = ''POST'', form_files = Some [(''file'', SingleFile (upload ''/tmp/one.csv''))]\<rparr>"
      "[(''file'', SingleFile (upload ''/tmp/one.csv''))]" sample_services]
    no_files_400 [of "post []" "[(''files'', FileArray [])]" sample_services]
    no_files_400 [of "post [upload ''/tmp/one.csv'']"
      "[(''files'', FileArray [upload ''/tmp/one.csv''])]" sample_services
      "upload ''/tmp/one.csv''" "[[row_12]]"]
    no_files_400 [of "post [upload ''/tmp/one.csv'', upload ''/tmp/two.csv'']"
      "[(''files'', FileArray [upload ''/tmp/one.csv'', upload ''/tmp/two.csv''])]"
      sample_services "upload ''/tmp/one.csv''" "[[row_12], [row_34]]"]
    no_files_400 [of "post [upload ''/tmp/missing.csv'']"
      "[(''files'', FileArray [upload ''/tmp/missing.csv''])]" sample_services
      "upload ''/tmp/missing.csv''" "[]"]
  by (simp add: post_def fileArray_of_def)

text \<open>
  C2 as stated fails: a request with exactly one file is merged and answered with
  status 200 and the CSV text.
\<close>

theorem one_file_counterexample:
  "handler sample_services
     \<lparr>httpMethod = ''POST'',
      form_files = Some [(''files'', SingleFile (upload ''/tmp/one.csv''))]\<rparr>
     = csv_response csv_12
   \<and> statusCode (csv_response csv_12) = 200"
  by (simp add: handler_post fileArray_of_def read_files_parsed_file
      remove_empty_rows_def remove_duplicates_def csv_response_def del: read_files.simps(2))

text \<open>
  C4, as the code has it. When reading or parsing one of the uploaded files throws, the
  answer is the fixed response with status 500 and the body
  \<^verbatim>\<open>Server error processing CSV files\<close>, whatever the other files hold: no CSV text is
  returned, and the response does not name the file. A file that Papa Parse finds
  malformed without throwing does not end the merge: the errors it reports are not
  read, and whatever they are, the rows it returned for every file are merged and
  serialized.
\<close>

theorem failing_file_aborts:
  "httpMethod event = ''POST'' \<and> form_files event = Some files \<longrightarrow>
     (file \<in> set (fileArray_of files) \<and> file_results sv file = None
        \<longrightarrow> handler sv event = server_error
            \<and> body (handler sv event) = ''Server error processing CSV files'')
     \<and> (fileArray_of files \<noteq> []
          \<and> map (file_results sv) (fileArray_of files) = map Some results
        \<longrightarrow> handler sv event =
              (case Parser_parse sv (merge_rows (map parsed_data results)) of
                 None \<Rightarrow> server_error
               | Some csv \<Rightarrow> csv_response csv))"
proof (intro impI conjI)
  assume a: "httpMethod event = ''POST'' \<and> form_files event = Some files"
    and b: "file \<in> set (fileArray_of files) \<and> file_results sv file = None"
  from b have "parsed_file sv file = None"
    by (simp add: parsed_file_def)
  with a b show "handler sv event = server_error"
    by (auto intro: handler_throws)
  then show "body (handler sv event) = ''Server error processing CSV files''"
    by (simp add: server_error_def)
next
  assume a: "httpMethod event = ''POST'' \<and> form_files event = Some files"
    and b: "fileArray_of files \<noteq> []
      \<and> map (file_results sv) (fileArray_of files) = map Some results"
  from b have "map (parsed_file sv) (fileArray_of files) = map Some (map parsed_data results)"
    by (simp add: parsed_file_results)
  with a b show "handler sv event =
      (case Parser_parse sv (merge_rows (map parsed_data results)) of
         None \<Rightarrow> server_error
       | Some csv \<Rightarrow> csv_response csv)"
    by (simp add: handler_merges)
qed

theorem failing_file_aborts_witness:
  "upload ''/tmp/missing.csv''
       \<in> set (fileArray_of [(''files'', FileArray [upload ''/tmp/one.csv'', upload ''/tmp/missing.csv''])])
   \<and> file_results sample_services (upload ''/tmp/missing.csv'') = None
   \<and> handler sample_services (post [upload ''/tmp/one.csv'', upload ''/tmp/missing.csv''])
       = server_error
   \<and> fileArray_of [(''files'', FileArray [upload ''/tmp/one.csv'', upload ''/tmp/short.csv''])] \<noteq> []
   \<and> map (file_results sample_services) [upload ''/tmp/one.csv'', upload ''/tmp/short.csv'']
       = map Some [\<lparr>parsed_data = [row_12], parsed_errors = []\<rparr>,
                   \<lparr>parsed_data = [row_1], parsed_errors = [''TooFewFields'']\<rparr>]
   \<and> handler sample_services (post [upload ''/tmp/one.csv'', upload ''/tmp/short.csv''])
       = csv_response csv_12_1"
proof -
  have short: "file_results sample_services (upload ''/tmp/short.csv'')
      = Some \<lparr>parsed_data = [row_1], parsed_errors = [''TooFewFields'']\<rparr>"
    by (simp add: file_results_def sample_services_def upload_def file_location_def
        text_12_def text_34_def text_spaces_def text_short_def)
  have merged: "merge_rows [[row_12], [row_1]] = [row_12, row_1]"
    by (simp add: merge_rows_def remove_empty_rows_def remove_duplicates_def
        JSON_stringify_eq_iff nonblank_value_iff spec_blank_value_def Object_values_def
        js_whitespace_def written_def row_1_def row_12_def)
  have ser: "Parser_parse sample_services [row_12, row_1] = Some csv_12_1"
    by (simp add: sample_services_def row_12_def row_34_def row_1_def)
  show ?thesis
    using
      failing_file_aborts [of "post [upload ''/tmp/one.csv'', upload ''/tmp/missing.csv'']"
        "[(''files'', FileArray [upload ''/tmp/one.csv'', upload ''/tmp/missing.csv''])]"
        "upload ''/tmp/missing.csv''" sample_services "[]"]
      failing_file_aborts [of "post [upload ''/tmp/one.csv'', upload ''/tmp/short.csv'']"
        "[(''files'', FileArray [upload ''/tmp/one.csv'', upload ''/tmp/short.csv''])]"
        "upload ''/tmp/short.csv''" sample_services
        "[\<lparr>parsed_data = [row_12], parsed_errors = []\<rparr>,
          \<lparr>parsed_data = [row_1], parsed_errors = [''TooFewFields'']\<rparr>]"]
    by (simp add: post_def fileArray_of_def short merged ser)
qed

text \<open>
  C4 as stated fails twice. The response is the same whether the first or the second
  file is the one that cannot be read, so it does not report which file failed. And a
  malformed file, for which Papa Parse reports the error \<^verbatim>\<open>TooFewFields\<close>, does not end the
  merge: its row is merged with the row of the other file and returned with status 200.
\<close>

theorem which_file_counterexample:
  "handler sample_services (post [upload ''/tmp/missing.csv'', upload ''/tmp/one.csv''])
     = handler sample_services (post [upload ''/tmp/one.csv'', upload ''/tmp/missing.csv''])
   \<and> handler sample_services (post [upload ''/tmp/missing.csv'', upload ''/tmp/one.csv''])
     = \<lparr>statusCode = 500, headers = [], body = ''Server error processing CSV files''\<rparr>
   \<and> map_option parsed_errors (file_results sample_services (upload ''/tmp/short.csv''))
     = Some [''TooFewFields'']
   \<and> handler sample_services (post [upload ''/tmp/one.csv'', upload ''/tmp/short.csv''])
     = csv_response csv_12_1
   \<and> statusCode (csv_response csv_12_1) = 200"
proof -
  have short: "file_results sample_services (upload ''/tmp/short.csv'')
      = Some \<lparr>parsed_data = [row_1], parsed_errors = [''TooFewFields'']\<rparr>"
    by (simp add: file_results_def sample_services_def upload_def file_location_def
        text_12_def text_34_def text_spaces_def text_short_def)
  then have parsed: "parsed_file sample_services (upload ''/tmp/short.csv'') = Some [row_1]"
    by (simp add: parsed_file_def)
  have kept: "list_ex nonblank_value (Object_values row_1)"
    by (simp add: nonblank_value_iff spec_blank_value_def Object_values_def js_whitespace_def
        row_1_def)
  have differ: "written row_1 \<noteq> row_12"
    by (simp add: written_def row_1_def row_12_def)
  have ser: "Parser_parse sample_services [row_12, row_1] = Some csv_12_1"
    by (simp add: sample_services_def row_12_def row_34_def row_1_def)
  have "handler sample_services (post [upload ''/tmp/one.csv'', upload ''/tmp/short.csv''])
      = csv_response csv_12_1"
    by (simp add: post_def handler_post fileArray_of_def read_files_parsed_file parsed kept
        differ ser remove_empty_rows_def remove_duplicates_def JSON_stringify_eq_iff Let_def
        del: read_files.simps(2))
  moreover have "handler sample_services (post [upload ''/tmp/missing.csv'', upload ''/tmp/one.csv''])
      = \<lparr>statusCode = 500, headers = [], body = ''Server error processing CSV files''\<rparr>"
    by (simp add: post_def handler_post fileArray_of_def read_files_parsed_file
        server_error_def del: read_files.simps(2))
  moreover have "handler sample_services (post [upload ''/tmp/one.csv'', upload ''/tmp/missing.csv''])
      = \<lparr>statusCode = 500, headers = [], body = ''Server error processing CSV files''\<rparr>"
    by (simp add: post_def handler_post fileArray_of_def read_files_parsed_file
        server_error_def del: read_files.simps(2))
  ultimately show ?thesis
    by (simp add: short csv_response_def)
qed

text \<open>
  C3, as the code has it. The handler has no test for an empty result. When every file
  is read and parsed and the filter removes every row, it gives the empty array to the
  serializer, and the answer is what follows from that call: the fixed status 500
  response when the call throws, a status 200 response carrying the returned text
  otherwise.
\<close>

theorem all_rows_blank:
  "httpMethod event = ''POST'' \<and> form_files event = Some files \<and> fileArray_of files \<noteq> []
   \<and> map (parsed_file sv) (fileArray_of files) = map Some parsed
   \<and> remove_empty_rows (concat parsed) = []
   \<longrightarrow> handler sv event =
        (case Parser_parse sv [] of None \<Rightarrow> server_error | Some csv \<Rightarrow> csv_response csv)"
proof (intro impI)
  assume a: "httpMethod event = ''POST'' \<and> form_files event = Some files
    \<and> fileArray_of files \<noteq> []
    \<and> map (parsed_file sv) (fileArray_of files) = map Some parsed
    \<and> remove_empty_rows (concat parsed) = []"
  then have read: "read_files sv (fileArray_of files) [] = Some (concat parsed)"
    using read_files_concat [of sv "fileArray_of files" parsed "[]"] by simp
  from a have "remove_duplicates (remove_empty_rows (concat parsed)) = []"
    by (simp add: remove_duplicates_def)
  with a read show "handler sv event =
      (case Parser_parse sv [] of None \<Rightarrow> server_error | Some csv \<Rightarrow> csv_response csv)"
    by (simp add: handler_def Let_def)
qed

theorem all_rows_blank_witness:
  "httpMethod (post [upload ''/tmp/blank.csv'', upload ''/tmp/blank.csv'']) = ''POST''
   \<and> fileArray_of [(''files'', FileArray [upload ''/tmp/blank.csv'', upload ''/tmp/blank.csv''])] \<noteq> []
   \<and> map (parsed_file sample_services) [upload ''/tmp/blank.csv'', upload ''/tmp/blank.csv'']
       = map Some [[row_spaces], [row_spaces]]
   \<and> remove_empty_rows (concat [[row_spaces], [row_spaces]]) = []
   \<and> handler sample_services (post [upload ''/tmp/blank.csv'', upload ''/tmp/blank.csv''])
       = server_error"
  using all_rows_blank [of "post [upload ''/tmp/blank.csv'', upload ''/tmp/blank.csv'']"
      "[(''files'', FileArray [upload ''/tmp/blank.csv'', upload ''/tmp/blank.csv''])]"
      sample_services "[[row_spaces], [row_spaces]]"]
  by (simp add: post_def fileArray_of_def remove_empty_rows_def)

text \<open>
  C3 as stated fails: the merge of files whose rows are all blank ends in the very
  response that an unreadable file produces. There is no empty-result condition of its own.
\<close>

theorem empty_result_counterexample:
  "handler sample_services (post [upload ''/tmp/blank.csv'', upload ''/tmp/blank.csv''])
     = handler sample_services (post [upload ''/tmp/missing.csv'', upload ''/tmp/two.csv''])
   \<and> body (handler sample_services (post [upload ''/tmp/blank.csv'', upload ''/tmp/blank.csv'']))
     = ''Server error processing CSV files''"
  by (simp add: post_def handler_post fileArray_of_def read_files_parsed_file
      remove_empty_rows_def remove_duplicates_def server_error_def del: read_files.simps(2))

section \<open>Claims about the page script\<close>

lemma input_listener_Some:
  "\<exists>rows'. input_listener this (Some rows) = Some rows' \<and> length rows' = length rows"
  by (simp add: input_listener_def Let_def)

lemma read_cell_input_listener:
  "i < length rows \<Longrightarrow>
   read_cell (input_listener this (Some rows)) i c =
     (if input_rowIndex this = i \<and> input_column this = c then Defined (input_value this)
      else read_cell (Some rows) i c)"
  by (auto simp: input_listener_def read_cell_def Let_def update_conv' nth_list_update)

lemma read_cell_fold_input_listener:
  "i < length rows \<Longrightarrow>
   read_cell (fold input_listener events (Some rows)) i c =
     (case last_written events i c of
        None \<Rightarrow> read_cell (Some rows) i c
      | Some v \<Rightarrow> Defined v)"
proof (induction events arbitrary: rows)
  case Nil
  show ?case by simp
next
  case (Cons this later)
  obtain rows' where step: "input_listener this (Some rows) = Some rows'"
    and len: "length rows' = length rows"
    using input_listener_Some by blast
  from Cons.prems len have i: "i < length rows'" by simp
  have "read_cell (fold input_listener (this # later) (Some rows)) i c
      = read_cell (fold input_listener later (Some rows')) i c"
    by (simp add: step)
  also have "\<dots> = (case last_written later i c of
        None \<Rightarrow> read_cell (Some rows') i c | Some v \<Rightarrow> Defined v)"
    by (rule Cons.IH [OF i])
  also have "read_cell (Some rows') i c =
      (if input_rowIndex this = i \<and> input_column this = c then Defined (input_value this)
       else read_cell (Some rows) i c)"
    using read_cell_input_listener [OF Cons.prems, of this c] by (simp add: step)
  finally show ?case
    by (auto split: option.splits)
qed

lemma table_in_rows_initial: "table_in_rows initial_page"
  by (simp add: table_in_rows_def initial_page_def)

lemma table_in_rows_parse_complete: "table_in_rows (parse_complete results_data pg)"
proof (cases results_data)
  case Nil
  then show ?thesis
    by (simp add: table_in_rows_def parse_complete_def buildTable_def)
next
  case (Cons first others)
  have "list_all (cell_in_rows results_data)
      (concat (map (\<lambda>rowIndex. row_cells rowIndex (results_data ! rowIndex))
         [0..<length results_data]))"
    by (auto simp: list_all_iff row_cells_def cell_in_rows_def)
  with Cons show ?thesis
    by (simp add: table_in_rows_def parse_complete_def buildTable_def)
qed

lemma toggle_cells_in_rows:
  "list_all (cell_in_rows rows) tds
   \<Longrightarrow> list_all (cell_in_rows rows) (toggle_cells selected col isChecked data tds)"
  by (induction tds) (auto simp: Let_def cell_in_rows_def split: cell_read.splits)

lemma table_in_rows_checkbox_change:
  "table_in_rows pg \<Longrightarrow> checkbox_change j pg = Some pg' \<Longrightarrow> table_in_rows pg'"
  by (auto simp: table_in_rows_def checkbox_change_def toggleModification_def Let_def
      toggle_cells_in_rows split: option.splits if_splits)

lemma cell_in_rows_length:
  "length rows' = length rows \<Longrightarrow> cell_in_rows rows' cell = cell_in_rows rows cell"
  by (simp add: cell_in_rows_def)

lemma table_in_rows_input_event:
  assumes "table_in_rows pg"
  shows "table_in_rows (input_event k s pg)"
proof -
  from assms obtain rows where rows: "csvData pg = Some rows"
    and all: "list_all (cell_in_rows rows) (cells pg)"
    by (auto simp: table_in_rows_def split: option.splits)
  show ?thesis
  proof (cases "k < length (cells pg)")
    case False
    with assms show ?thesis by (simp add: input_event_def)
  next
    case k: True
    show ?thesis
    proof (cases "td_content (cells pg ! k)")
      case (TextContent t)
      with assms k show ?thesis by (simp add: input_event_def)
    next
      case (InputChild input)
      let ?inp = "input\<lparr>input_value := s\<rparr>"
      obtain rows' where step: "input_listener ?inp (Some rows) = Some rows'"
        and len: "length rows' = length rows"
        using input_listener_Some by blast
      from all k have old: "cell_in_rows rows (cells pg ! k)"
        by (simp add: list_all_length)
      with InputChild have new: "cell_in_rows rows ((cells pg ! k)\<lparr>td_content := InputChild ?inp\<rparr>)"
        by (simp add: cell_in_rows_def)
      have "list_all (cell_in_rows rows)
          ((cells pg)[k := (cells pg ! k)\<lparr>td_content := InputChild ?inp\<rparr>])"
        using all new by (auto simp: list_all_iff dest: set_update_subset_insert [THEN subsetD])
      then have "list_all (cell_in_rows rows')
          ((cells pg)[k := (cells pg ! k)\<lparr>td_content := InputChild ?inp\<rparr>])"
        by (simp add: cell_in_rows_length [OF len] cong: list.pred_cong)
      with k InputChild rows step show ?thesis
        by (simp add: input_event_def table_in_rows_def Let_def)
    qed
  qed
qed

lemma table_in_rows_download_click: "table_in_rows pg \<Longrightarrow> table_in_rows (download_click pg)"
  by (auto simp: table_in_rows_def download_click_def split: option.splits)

lemma table_in_rows_step:
  "table_in_rows pg \<Longrightarrow> step e pg = Some pg' \<Longrightarrow> table_in_rows pg'"
proof (cases e)
  case (FileParsed results_data)
  assume "step e pg = Some pg'"
  with FileParsed show ?thesis
    using table_in_rows_parse_complete [of results_data pg] by simp
next
  case (CheckboxClicked j)
  assume "table_in_rows pg" "step e pg = Some pg'"
  with CheckboxClicked show ?thesis
    by (simp add: table_in_rows_checkbox_change)
next
  case (Typed k s)
  assume "table_in_rows pg" "step e pg = Some pg'"
  with Typed show ?thesis
    using table_in_rows_input_event [of pg k s] by simp
next
  case DownloadClicked
  assume "table_in_rows pg" "step e pg = Some pg'"
  with DownloadClicked show ?thesis
    using table_in_rows_download_click [of pg] by simp
qed

lemma table_in_rows_run:
  "table_in_rows pg \<Longrightarrow> run history pg = Some pg' \<Longrightarrow> table_in_rows pg'"
proof (induction history arbitrary: pg)
  case Nil
  then show ?case by simp
next
  case (Cons e es)
  from Cons.prems(2) obtain mid where mid: "step e pg = Some mid" and rest: "run es mid = Some pg'"
    by (auto split: option.splits)
  from Cons.prems(1) mid have "table_in_rows mid"
    by (rule table_in_rows_step)
  then show ?case using rest by (rule Cons.IH)
qed

lemma history_table_in_rows: "run history initial_page = Some pg \<Longrightarrow> table_in_rows pg"
  using table_in_rows_initial by (rule table_in_rows_run)

text \<open>
  C7. After any history of events, typing into an input stores the typed text in
  \<^verbatim>\<open>csvData\<close> at once, at the row index and column of the input. After any sequence of
  such writes, reading a cell of a row of the store gives the text of the last write to
  that row index and column, and the value the cell had before when no write addressed
  it; writes to other slots do not matter.
\<close>

theorem write_through_last_value:
  "(run history initial_page = Some pg
      \<and> k < length (cells pg) \<and> td_content (cells pg ! k) = InputChild input
    \<longrightarrow> read_cell (csvData (input_event k typed pg)) (input_rowIndex input) (input_column input)
          = Defined typed)
   \<and> (i < length rows
      \<longrightarrow> read_cell (fold input_listener events (Some rows)) i c =
            (case last_written events i c of
               None \<Rightarrow> read_cell (Some rows) i c
             | Some v \<Rightarrow> Defined v))"
proof (intro conjI impI)
  assume a: "run history initial_page = Some pg \<and> k < length (cells pg)
      \<and> td_content (cells pg ! k) = InputChild input"
  then have "run history initial_page = Some pg"
    by simp
  then have "table_in_rows pg"
    by (rule history_table_in_rows)
  then obtain stored where stored: "csvData pg = Some stored"
    and all: "list_all (cell_in_rows stored) (cells pg)"
    by (auto simp: table_in_rows_def split: option.splits)
  from all a have "cell_in_rows stored (cells pg ! k)"
    by (simp add: list_all_length)
  with a have ri: "input_rowIndex input < length stored"
    by (simp add: cell_in_rows_def)
  from a stored have "csvData (input_event k typed pg)
      = input_listener (input\<lparr>input_value := typed\<rparr>) (Some stored)"
    by (simp add: input_event_def Let_def)
  with ri show "read_cell (csvData (input_event k typed pg)) (input_rowIndex input)
      (input_column input) = Defined typed"
    by (simp add: read_cell_input_listener)
next
  assume "i < length rows"
  then show "read_cell (fold input_listener events (Some rows)) i c =
      (case last_written events i c of
         None \<Rightarrow> read_cell (Some rows) i c
       | Some v \<Rightarrow> Defined v)"
    by (rule read_cell_fold_input_listener)
qed

lemma people_page_eq:
  "people_page =
     \<lparr>csvData = Some people,
      checkboxes = [\<lparr>checkbox_column = ''name'', checked = False\<rparr>,
                    \<lparr>checkbox_column = ''age'', checked = False\<rparr>],
      cells =
        [\<lparr>data_column = ''name'', data_rowIndex = 0, td_content = TextContent ''Alice''\<rparr>,
         \<lparr>data_column = ''age'', data_rowIndex = 0, td_content = TextContent ''30''\<rparr>,
         \<lparr>data_column = ''name'', data_rowIndex = 1, td_content = TextContent ''Bob''\<rparr>,
         \<lparr>data_column = ''age'', data_rowIndex = 1, td_content = TextContent ''25''\<rparr>],
      downloadButton_shown = True, alerts = [], downloads = []\<rparr>"
  by (simp add: people_page_def parse_complete_def buildTable_def initial_page_def people_def
      row_cells_def Object_keys_def upt_conv_Cons)

lemma people_editing_reached: "checkbox_change 1 people_page = Some people_editing"
  by (simp add: people_editing_def people_page_eq checkbox_change_def toggleModification_def
      Let_def read_cell_def people_def backslash_def css_line_break_def)

lemma people_editing_history:
  "run [FileParsed people, CheckboxClicked 1] initial_page = Some people_editing"
  using people_editing_reached by (simp add: people_page_def)

theorem write_through_last_value_witness:
  "run [FileParsed people, CheckboxClicked 1] initial_page = Some people_editing
   \<and> 3 < length (cells people_editing)
   \<and> td_content (cells people_editing ! 3)
       = InputChild \<lparr>input_value = ''25'', input_column = ''age'', input_rowIndex = 1\<rparr>
   \<and> read_cell (csvData (input_event 3 ''26'' people_editing)) 1 ''age'' = Defined ''26''
   \<and> 1 < length people
   \<and> read_cell
        (fold input_listener
           [\<lparr>input_value = ''2'', input_column = ''age'', input_rowIndex = 1\<rparr>,
            \<lparr>input_value = ''Al'', input_column = ''name'', input_rowIndex = 0\<rparr>,
            \<lparr>input_value = ''26'', input_column = ''age'', input_rowIndex = 1\<rparr>]
           (Some people)) 1 ''age''
       = Defined ''26''
   \<and> read_cell
        (fold input_listener
           [\<lparr>input_value = ''2'', input_column = ''age'', input_rowIndex = 1\<rparr>,
            \<lparr>input_value = ''Al'', input_column = ''name'', input_rowIndex = 0\<rparr>,
            \<lparr>input_value = ''26'', input_column = ''age'', input_rowIndex = 1\<rparr>]
           (Some people)) 1 ''name''
       = Defined ''Bob''"
  using people_editing_history
    write_through_last_value [of "[FileParsed people, CheckboxClicked 1]" people_editing 3
      "\<lparr>input_value = ''25'', input_column = ''age'', input_rowIndex = 1\<rparr>" "''26''" 1 people
      "[\<lparr>input_value = ''2'', input_column = ''age'', input_rowIndex = 1\<rparr>,
        \<lparr>input_value = ''Al'', input_column = ''name'', input_rowIndex = 0\<rparr>,
        \<lparr>input_value = ''26'', input_column = ''age'', input_rowIndex = 1\<rparr>]" "''age''"]
    write_through_last_value [of "[FileParsed people, CheckboxClicked 1]" people_editing 3
      "\<lparr>input_value = ''25'', input_column = ''age'', input_rowIndex = 1\<rparr>" "''26''" 1 people
      "[\<lparr>input_value = ''2'', input_column = ''age'', input_rowIndex = 1\<rparr>,
        \<lparr>input_value = ''Al'', input_column = ''name'', input_rowIndex = 0\<rparr>,
        \<lparr>input_value = ''26'', input_column = ''age'', input_rowIndex = 1\<rparr>]" "''name''"]
  by (simp add: people_editing_def people_page_eq people_def read_cell_def)

text \<open>
  C10. While nothing is loaded (\<^verbatim>\<open>csvData\<close> missing or empty), a click on the download
  button offers no file: it raises the alert \<^verbatim>\<open>No CSV loaded to download.\<close> and leaves
  the rows, the table and the list of downloads as they were.
\<close>

theorem download_nothing_loaded:
  "nothing_loaded (csvData pg) \<longrightarrow>
     download_click pg = pg\<lparr>alerts := alerts pg @ [''No CSV loaded to download.'']\<rparr>
     \<and> downloads (download_click pg) = downloads pg
     \<and> csvData (download_click pg) = csvData pg
     \<and> cells (download_click pg) = cells pg
     \<and> checkboxes (download_click pg) = checkboxes pg"
  by (simp add: download_click_def)

theorem download_nothing_loaded_witness:
  "nothing_loaded (csvData initial_page)
   \<and> download_click initial_page = initial_page\<lparr>alerts := [''No CSV loaded to download.'']\<rparr>
   \<and> downloads (download_click initial_page) = []
   \<and> nothing_loaded (csvData (initial_page\<lparr>csvData := None\<rparr>))
   \<and> downloads (download_click (initial_page\<lparr>csvData := None\<rparr>)) = []"
  using download_nothing_loaded [of initial_page]
    download_nothing_loaded [of "initial_page\<lparr>csvData := None\<rparr>"]
  by (simp add: initial_page_def nothing_loaded_def)

lemma toggleModification_csvData:
  "toggleModification cb pg = Some pg' \<Longrightarrow> csvData pg' = csvData pg"
  by (auto simp: toggleModification_def Let_def split: option.splits)

lemma length_toggle_cells [simp]:
  "length (toggle_cells selected col isChecked data tds) = length tds"
  by (induction tds) (auto simp: Let_def split: cell_read.splits)

lemma toggle_cells_other_column:
  "k < length tds \<Longrightarrow> data_column (tds ! k) \<noteq> selected
   \<Longrightarrow> toggle_cells selected col isChecked data tds ! k = tds ! k"
proof (induction tds arbitrary: k)
  case Nil
  then show ?case by simp
next
  case (Cons cell others)
  then show ?case
    by (cases k) (auto simp: Let_def split: cell_read.splits)
qed

lemma css_string_value_plain:
  "\<forall>c \<in> set col. c \<noteq> backslash \<and> c \<noteq> CHR 0x27 \<and> \<not> css_line_break c \<and> c \<noteq> CHR 0x00
   \<Longrightarrow> css_string_value col = Some col"
  by (induction col rule: css_string_value.induct) auto

text \<open>
  Toggling never writes to the stored rows, and for a column whose name has no backslash,
  single quote, line break or NUL it leaves the cells of every other column as they are.
\<close>

lemma toggleModification_frame:
  assumes "\<forall>c \<in> set (checkbox_column cb).
      c \<noteq> backslash \<and> c \<noteq> CHR 0x27 \<and> \<not> css_line_break c \<and> c \<noteq> CHR 0x00"
  shows "\<exists>pg'. toggleModification cb pg = Some pg' \<and> csvData pg' = csvData pg
    \<and> checkboxes pg' = checkboxes pg \<and> length (cells pg') = length (cells pg)
    \<and> (\<forall>k < length (cells pg).
          data_column (cells pg ! k) \<noteq> checkbox_column cb \<longrightarrow> cells pg' ! k = cells pg ! k)"
  using css_string_value_plain [OF assms]
  by (simp add: toggleModification_def Let_def toggle_cells_other_column)

lemma escaped_page_eq:
  "escaped_page =
     \<lparr>csvData = Some [[(escaped_x, ''1''), (''x'', ''2'')]],
      checkboxes = [\<lparr>checkbox_column = escaped_x, checked = False\<rparr>,
                    \<lparr>checkbox_column = ''x'', checked = False\<rparr>],
      cells =
        [\<lparr>data_column = escaped_x, data_rowIndex = 0, td_content = TextContent ''1''\<rparr>,
         \<lparr>data_column = ''x'', data_rowIndex = 0, td_content = TextContent ''2''\<rparr>],
      downloadButton_shown = True, alerts = [], downloads = []\<rparr>"
  by (simp add: escaped_page_def parse_complete_def buildTable_def initial_page_def
      row_cells_def Object_keys_def)

text \<open>
  C8 at a table with the columns \<^verbatim>\<open>\x\<close> and \<^verbatim>\<open>x\<close>, one row holding 1 and 2. Ticking the
  checkbox of the column \<^verbatim>\<open>\x\<close> leaves that column's cell as text and turns the cell of
  the column \<^verbatim>\<open>x\<close> into an input that shows 1 and writes to the column \<^verbatim>\<open>\x\<close>.
\<close>

theorem toggle_reaches_other_column:
  "run [FileParsed [[(escaped_x, ''1''), (''x'', ''2'')]], CheckboxClicked 0] initial_page =
     Some \<lparr>csvData = Some [[(escaped_x, ''1''), (''x'', ''2'')]],
           checkboxes = [\<lparr>checkbox_column = escaped_x, checked = True\<rparr>,
                         \<lparr>checkbox_column = ''x'', checked = False\<rparr>],
           cells =
             [\<lparr>data_column = escaped_x, data_rowIndex = 0, td_content = TextContent ''1''\<rparr>,
              \<lparr>data_column = ''x'', data_rowIndex = 0,
               td_content = InputChild
                 \<lparr>input_value = ''1'', input_column = escaped_x, input_rowIndex = 0\<rparr>\<rparr>],
           downloadButton_shown = True, alerts = [], downloads = []\<rparr>"
proof -
  have "run [FileParsed [[(escaped_x, ''1''), (''x'', ''2'')]], CheckboxClicked 0] initial_page
      = checkbox_change 0 escaped_page"
    by (simp add: escaped_page_def split: option.split)
  then show ?thesis
    by (simp add: escaped_page_eq checkbox_change_def toggleModification_def Let_def
        read_cell_def escaped_x_def backslash_def css_hex_digit_def css_line_break_def)
qed

text \<open>
  Between loading and downloading the script does not touch the rows: the file offered
  is the text of \<^verbatim>\<open>Papa.unparse\<close> for the very array that \<^verbatim>\<open>Papa.parse\<close> returned.
\<close>

lemma load_then_download:
  "results_data \<noteq> [] \<Longrightarrow>
   downloads (download_click (parse_complete results_data pg)) =
     downloads pg @ [\<lparr>filename = ''modified.csv'', blob = Papa_unparse results_data\<rparr>]"
  by (cases results_data)
    (simp_all add: download_click_def parse_complete_def buildTable_def nothing_loaded_def)

end
